theory Spec2Isabelle
  imports Complex_Main
begin

section \<open>The virtual robot platform of pbio\_virtual (platform/robot.py)\<close>

text \<open>
  The module wires a simulated motor to a virtual motor driver (the actuation side) and a
  virtual counter (the sensor side). Python numbers are modelled as reals: the floats of
  the source are read as the real numbers they stand for, so every statement below is
  about the arithmetic the code writes down, not about rounding.
\<close>

subsection \<open>Collaborators that the module imports\<close>

datatype error = IndexError | KeyError | AttributeError

text \<open>
  Modelled from the spec: the enums \<open>PortId\<close> and \<open>IODeviceTypeId\<close> are declared in
  drv/ioport.py, which is not part of the sources at hand. robot.py names the ports A to F
  and the tags \<open>NONE\<close> and \<open>TECHNIC_L_ANGULAR_MOTOR\<close>; every other member of the tag enum
  is \<open>OTHER_DEVICE n\<close>.
\<close>

datatype PortId = A | B | C | D | E | F

datatype IODeviceTypeId = NONE | TECHNIC_L_ANGULAR_MOTOR | OTHER_DEVICE nat

text \<open>
  The physics model (physics/motors.py, \<open>SimpleMotor\<close>) and the clock (drv/clock.py,
  \<open>CountingClock\<close>) are not part of the sources at hand either. The module uses them only
  through the calls below, so they are parameters: \<open>'m\<close> is the state of one simulated
  motor, \<open>'c\<close> the state of the clock.
\<close>

record ('m, 'c) collaborators =
  SimMotor :: "real \<Rightarrow> real list \<Rightarrow> 'm"
  simulate :: "'m \<Rightarrow> real \<Rightarrow> real list \<Rightarrow> 'm"
  get_latest_output :: "'m \<Rightarrow> real \<times> real"
  CountingClock :: "real \<Rightarrow> real \<Rightarrow> 'c"
  microseconds :: "'c \<Rightarrow> real"
  tick :: "'c \<Rightarrow> 'c"

subsection \<open>The store of simulated motors\<close>

text \<open>
  A driver and a counter of one port hold the same \<open>SimMotor\<close> object. The objects live
  in a store; a reference is an address. A Python reference always points to an object, so
  \<open>cells\<close> is total; \<open>fresh\<close> is the next address that construction hands out.
\<close>

type_synonym addr = nat

record 'm store =
  cells :: "addr \<Rightarrow> 'm"
  fresh :: addr

definition alloc :: "'m \<Rightarrow> 'm store \<Rightarrow> addr \<times> 'm store" where
  "alloc m w = (fresh w, w\<lparr>cells := (cells w)(fresh w := m), fresh := Suc (fresh w)\<rparr>)"

subsection \<open>Python arithmetic\<close>

text \<open>
  \<open>x % m\<close> on Python numbers takes the sign of the divisor: it is \<open>x - m * floor (x / m)\<close>.
  The only divisor in the module is the literal 360.
\<close>

definition py_mod :: "real \<Rightarrow> real \<Rightarrow> real" where
  "py_mod x m = x - m * of_int \<lfloor>x / m\<rfloor>"

definition radians :: "real \<Rightarrow> real" where
  "radians x = x * pi / 180"

text \<open>
  \<open>random.randint(a, b)\<close> draws from the process-wide generator. The generator is the
  sequence of raw values it is going to produce; a draw reduces the next raw value into
  \<open>a..b\<close> and moves on. Every sequence of results within \<open>a..b\<close> arises from some generator.
\<close>

type_synonym rng = "nat \<Rightarrow> nat"

definition randint :: "rng \<Rightarrow> int \<Rightarrow> int \<Rightarrow> int \<times> rng" where
  "randint g a b = (a + int (g 0 mod nat (b - a + 1)), \<lambda>n. g (Suc n))"

subsection \<open>VirtualMotorDriver\<close>

record VirtualMotorDriver =
  drv_sim_motor :: "addr option"

definition VirtualMotorDriver_init :: "addr option \<Rightarrow> VirtualMotorDriver" where
  "VirtualMotorDriver_init sim_motor = \<lparr>drv_sim_motor = sim_motor\<rparr>"

text \<open>
  The callbacks take \<open>*args\<close>: the argument tuple is a list, and reading \<open>args[k]\<close> beyond
  its end raises IndexError. The check for a missing motor comes first.
\<close>

definition on_set_duty_cycle ::
  "('m, 'c) collaborators \<Rightarrow> VirtualMotorDriver \<Rightarrow> real list \<Rightarrow> 'm store \<Rightarrow> error + 'm store" where
  "on_set_duty_cycle env self args w =
     (case drv_sim_motor self of
        None \<Rightarrow> Inr w
      | Some a \<Rightarrow>
          (if length args < 1 then Inl IndexError
           else let end_time = args ! 0 / 1000000 + 5 / 1000 in
             if length args < 2 then Inl IndexError
             else let u = [args ! 1] in
               Inr (w\<lparr>cells := (cells w)(a := simulate env (cells w a) end_time u)\<rparr>)))"

definition on_coast ::
  "('m, 'c) collaborators \<Rightarrow> VirtualMotorDriver \<Rightarrow> real list \<Rightarrow> 'm store \<Rightarrow> error + 'm store" where
  "on_coast env self args w =
     (if length args < 1 then Inl IndexError
      else on_set_duty_cycle env self [args ! 0, 0] w)"

subsection \<open>VirtualCounter\<close>

text \<open>
  \<open>initial_angle\<close> is assigned only when there is a motor; \<open>None\<close> is the attribute that
  was never set.
\<close>

record VirtualCounter =
  cnt_sim_motor :: "addr option"
  initial_angle :: "real option"

definition VirtualCounter_init ::
  "('m, 'c) collaborators \<Rightarrow> addr option \<Rightarrow> 'm store \<Rightarrow> VirtualCounter" where
  "VirtualCounter_init env sim_motor w =
     (case sim_motor of
        None \<Rightarrow> \<lparr>cnt_sim_motor = None, initial_angle = None\<rparr>
      | Some a \<Rightarrow>
          (let (angle, speed) = get_latest_output env (cells w a)
           in \<lparr>cnt_sim_motor = Some a, initial_angle = Some angle\<rparr>))"

definition abs_count :: "('m, 'c) collaborators \<Rightarrow> VirtualCounter \<Rightarrow> 'm store \<Rightarrow> real" where
  "abs_count env self w =
     (case cnt_sim_motor self of
        None \<Rightarrow> 0
      | Some a \<Rightarrow>
          (let (angle, speed) = get_latest_output env (cells w a);
               abs_angle = py_mod angle 360
           in if abs_angle < 180 then abs_angle else abs_angle - 360))"

definition count :: "('m, 'c) collaborators \<Rightarrow> VirtualCounter \<Rightarrow> 'm store \<Rightarrow> error + real" where
  "count env self w =
     (case cnt_sim_motor self of
        None \<Rightarrow> Inr 0
      | Some a \<Rightarrow>
          (let (angle, speed) = get_latest_output env (cells w a)
           in case initial_angle self of
                None \<Rightarrow> Inl AttributeError
              | Some angle0 \<Rightarrow> Inr (angle - angle0)))"

definition rate :: "('m, 'c) collaborators \<Rightarrow> VirtualCounter \<Rightarrow> 'm store \<Rightarrow> real" where
  "rate env self w =
     (case cnt_sim_motor self of
        None \<Rightarrow> 0
      | Some a \<Rightarrow> (let (angle, speed) = get_latest_output env (cells w a) in speed))"

subsection \<open>Platform\<close>

record VirtualIOPort =
  port_id :: PortId
  motor_type_id :: IODeviceTypeId

text \<open>
  The battery, button and LED stubs take no part in what follows and are left out. The
  dictionaries of the platform are maps; \<open>sim_motor\<close> maps an index to a reference or to
  Python's \<open>None\<close>.
\<close>

record 'c Platform =
  clock :: "int \<rightharpoonup> 'c"
  ioport :: "PortId \<rightharpoonup> VirtualIOPort"
  counter :: "nat \<rightharpoonup> VirtualCounter"
  motor_driver :: "nat \<rightharpoonup> VirtualMotorDriver"
  sim_motor :: "nat \<rightharpoonup> addr option"

definition PORTS :: "(PortId \<times> IODeviceTypeId) list" where
  "PORTS = [(A, TECHNIC_L_ANGULAR_MOTOR), (B, NONE), (C, NONE), (D, NONE), (E, NONE), (F, NONE)]"

definition on_poll :: "('m, 'c) collaborators \<Rightarrow> 'c Platform \<Rightarrow> error + 'c Platform" where
  "on_poll env self =
     (case clock self (- 1) of
        None \<Rightarrow> Inl KeyError
      | Some clk \<Rightarrow> Inr (self\<lparr>clock := (clock self)(- 1 \<mapsto> tick env clk)\<rparr>))"

text \<open>One round of the loop over the port table, for the port at index \<open>i\<close>.\<close>

definition init_port ::
  "('m, 'c) collaborators \<Rightarrow> nat \<Rightarrow> PortId \<Rightarrow> IODeviceTypeId \<Rightarrow>
   'c Platform \<times> 'm store \<times> rng \<Rightarrow> error + 'c Platform \<times> 'm store \<times> rng" where
  "init_port env i pid type_id s =
     (case s of (self, w, g) \<Rightarrow>
       let self1 = self\<lparr>ioport := (ioport self)(pid \<mapsto> \<lparr>port_id = pid, motor_type_id = type_id\<rparr>)\<rparr>;
           self2 = self1\<lparr>sim_motor := (sim_motor self1)(i \<mapsto> None)\<rparr>
       in
       (case (if type_id \<noteq> NONE then
                (case clock self2 (- 1) of
                   None \<Rightarrow> Inl KeyError
                 | Some clk \<Rightarrow>
                     (let initial_time = microseconds env clk / 1000000;
                          (initial_angle, g1) = randint g (- 180) 179;
                          initial_speed = 0;
                          initial_state = [radians (of_int initial_angle), radians initial_speed];
                          (a, w1) = alloc (SimMotor env initial_time initial_state) w
                      in Inr (self2\<lparr>sim_motor := (sim_motor self2)(i \<mapsto> Some a)\<rparr>, w1, g1)))
              else Inr (self2, w, g)) of
          Inl e \<Rightarrow> Inl e
        | Inr (self3, w3, g3) \<Rightarrow>
            (case sim_motor self3 i of
               None \<Rightarrow> Inl KeyError
             | Some m \<Rightarrow>
                 (let self4 = self3\<lparr>counter := (counter self3)(i \<mapsto> VirtualCounter_init env m w3)\<rparr>;
                      self5 = self4\<lparr>motor_driver := (motor_driver self4)(i \<mapsto> VirtualMotorDriver_init m)\<rparr>
                  in Inr (self5, w3, g3)))))"

fun init_ports ::
  "('m, 'c) collaborators \<Rightarrow> nat \<Rightarrow> (PortId \<times> IODeviceTypeId) list \<Rightarrow>
   'c Platform \<times> 'm store \<times> rng \<Rightarrow> error + 'c Platform \<times> 'm store \<times> rng" where
  "init_ports env i [] s = Inr s"
| "init_ports env i ((pid, type_id) # rest) s =
     (case init_port env i pid type_id s of
        Inl e \<Rightarrow> Inl e
      | Inr s' \<Rightarrow> init_ports env (Suc i) rest s')"

text \<open>
  \<open>Platform.__init__\<close>, for a port table \<open>ports\<close> (the class constant \<open>PORTS\<close> in the
  source), the store \<open>w\<close> and the random generator \<open>g\<close> as they are before the call.
\<close>

definition Platform_init ::
  "('m, 'c) collaborators \<Rightarrow> (PortId \<times> IODeviceTypeId) list \<Rightarrow> 'm store \<Rightarrow> rng \<Rightarrow>
   error + 'c Platform \<times> 'm store \<times> rng" where
  "Platform_init env ports w g =
     (let self = \<lparr>clock = [- 1 \<mapsto> CountingClock env 0 0], ioport = Map.empty,
                  counter = Map.empty, motor_driver = Map.empty, sim_motor = Map.empty\<rparr>
      in init_ports env 0 ports (self, w, g))"

subsection \<open>Calls made by the firmware\<close>

text \<open>
  A call history is a list of actuation calls, each on the driver of one port index. A
  call that raises leaves the store as it was (both callbacks raise before they touch the
  motor), and the history goes on with the next call.
\<close>

datatype call = Coast nat "real list" | SetDutyCycle nat "real list"

fun actuate ::
  "('m, 'c) collaborators \<Rightarrow> 'c Platform \<Rightarrow> call \<Rightarrow> 'm store \<Rightarrow> error + 'm store" where
  "actuate env p (Coast i args) w =
     (case motor_driver p i of None \<Rightarrow> Inl KeyError | Some d \<Rightarrow> on_coast env d args w)"
| "actuate env p (SetDutyCycle i args) w =
     (case motor_driver p i of None \<Rightarrow> Inl KeyError | Some d \<Rightarrow> on_set_duty_cycle env d args w)"

fun run :: "('m, 'c) collaborators \<Rightarrow> 'c Platform \<Rightarrow> call list \<Rightarrow> 'm store \<Rightarrow> 'm store" where
  "run env p [] w = w"
| "run env p (c # cs) w =
     run env p cs (case actuate env p c w of Inl e \<Rightarrow> w | Inr w' \<Rightarrow> w')"

subsection \<open>What construction hands to each port\<close>

text \<open>
  The number of ports of a table that get a motor, the angle of the \<open>k\<close>-th draw from
  the generator, and the motor built from it.
\<close>

definition motor_count :: "(PortId \<times> IODeviceTypeId) list \<Rightarrow> nat" where
  "motor_count ports = length (filter (\<lambda>(pid, type_id). type_id \<noteq> NONE) ports)"

definition drawn_angle :: "rng \<Rightarrow> nat \<Rightarrow> int" where
  "drawn_angle g k = fst (randint (\<lambda>n. g (n + k)) (- 180) 179)"

definition drawn_motor :: "('m, 'c) collaborators \<Rightarrow> 'c \<Rightarrow> rng \<Rightarrow> nat \<Rightarrow> 'm" where
  "drawn_motor env clk g k =
     SimMotor env (microseconds env clk / 1000000) [radians (of_int (drawn_angle g k)), radians 0]"

text \<open>
  Port \<open>j\<close> of the table is wired at index \<open>idx\<close>: without a motor all three
  dictionaries hold an empty slot, with one they hold the same reference.
\<close>

definition wired ::
  "('m, 'c) collaborators \<Rightarrow> 'c \<Rightarrow> rng \<Rightarrow> addr \<Rightarrow> (PortId \<times> IODeviceTypeId) list \<Rightarrow> nat \<Rightarrow>
   'c Platform \<Rightarrow> 'm store \<Rightarrow> nat \<Rightarrow> bool" where
  "wired env clk g base ports j p w idx =
     (if snd (ports ! j) = NONE then
        sim_motor p idx = Some None
        \<and> counter p idx = Some \<lparr>cnt_sim_motor = None, initial_angle = None\<rparr>
        \<and> motor_driver p idx = Some \<lparr>drv_sim_motor = None\<rparr>
      else
        (let k = motor_count (take j ports); a = base + k in
           sim_motor p idx = Some (Some a)
           \<and> cells w a = drawn_motor env clk g k
           \<and> counter p idx = Some \<lparr>cnt_sim_motor = Some a,
                initial_angle = Some (fst (get_latest_output env (drawn_motor env clk g k)))\<rparr>
           \<and> motor_driver p idx = Some \<lparr>drv_sim_motor = Some a\<rparr>))"

subsection \<open>A reference physics model and clock\<close>

text \<open>
  Modelled from the spec: the integrator (physics/motors.py) and the clock (drv/clock.py)
  are not part of the sources at hand. The spec fixes their interface: the motor is built
  from a start time and a state in radians, \<open>simulate\<close> advances the integrated state to
  an end time under a held input, and the latest output is the angle in degrees and the
  speed in degrees per second; the clock counts microseconds and a tick advances it by one
  fixed step. The dynamics here (the held input is the acceleration, one step of one unit
  per tick) stand in for the real ones. The theorems hold for every collaborator; this one
  serves to evaluate them on concrete inputs.
\<close>

record SimpleMotor =
  sm_time :: real
  sm_angle :: real
  sm_speed :: real

definition degrees :: "real \<Rightarrow> real" where
  "degrees x = x * 180 / pi"

definition SimpleMotor_init :: "real \<Rightarrow> real list \<Rightarrow> SimpleMotor" where
  "SimpleMotor_init t0 x0 =
     \<lparr>sm_time = t0, sm_angle = degrees (x0 ! 0), sm_speed = degrees (x0 ! 1)\<rparr>"

definition SimpleMotor_simulate :: "SimpleMotor \<Rightarrow> real \<Rightarrow> real list \<Rightarrow> SimpleMotor" where
  "SimpleMotor_simulate m end_time u =
     (if end_time \<le> sm_time m then m
      else let dt = end_time - sm_time m; acc = u ! 0
           in \<lparr>sm_time = end_time,
               sm_angle = sm_angle m + sm_speed m * dt + acc * dt * dt / 2,
               sm_speed = sm_speed m + acc * dt\<rparr>)"

definition SimpleMotor_get_latest_output :: "SimpleMotor \<Rightarrow> real \<times> real" where
  "SimpleMotor_get_latest_output m = (sm_angle m, sm_speed m)"

definition reference_env :: "(SimpleMotor, real) collaborators" where
  "reference_env =
     \<lparr>SimMotor = SimpleMotor_init, simulate = SimpleMotor_simulate,
      get_latest_output = SimpleMotor_get_latest_output,
      CountingClock = (\<lambda>start fuzz. start), microseconds = (\<lambda>c. c), tick = (\<lambda>c. c + 1)\<rparr>"

text \<open>
  Modelled from the spec: "re-invoking with identical arguments before any further state
  change must reproduce identical resulting state (determinism is the physics model's
  responsibility)". For the integrator this says that simulating again to the end time
  just reached, under the same input, changes nothing.
\<close>

definition physics_deterministic :: "('m, 'c) collaborators \<Rightarrow> bool" where
  "physics_deterministic env =
     (\<forall>m end_time u. simulate env (simulate env m end_time u) end_time u = simulate env m end_time u)"

subsection \<open>Concrete inputs\<close>

definition empty_store :: "SimpleMotor store" where
  "empty_store = \<lparr>cells = (\<lambda>a. SimpleMotor_init 0 [0, 0]), fresh = 0\<rparr>"

definition zero_rng :: rng where
  "zero_rng = (\<lambda>n. 0)"

text \<open>A store with one motor at rest at the angle \<open>\<theta>\<close>, a counter and a driver on it.\<close>

definition store_at :: "real \<Rightarrow> SimpleMotor store" where
  "store_at \<theta> = snd (alloc (SimMotor reference_env 0 [radians \<theta>, radians 0]) empty_store)"

definition counter_at :: "real \<Rightarrow> VirtualCounter" where
  "counter_at \<theta> = VirtualCounter_init reference_env (Some 0) (store_at \<theta>)"

definition driver_at_0 :: VirtualMotorDriver where
  "driver_at_0 = VirtualMotorDriver_init (Some 0)"

text \<open>A port table with a tag that robot.py never names.\<close>

definition unknown_tag_ports :: "(PortId \<times> IODeviceTypeId) list" where
  "unknown_tag_ports = [(A, OTHER_DEVICE 37)]"

text \<open>The platform of the source's own port table, built on the empty store.\<close>

definition booted :: "real Platform \<times> SimpleMotor store \<times> rng" where
  "booted = projr (Platform_init reference_env PORTS empty_store zero_rng)"

section \<open>Lemmas\<close>

subsection \<open>Reduction modulo a full turn\<close>

lemma py_mod_360_range: "0 \<le> py_mod x 360 \<and> py_mod x 360 < 360"
proof -
  have "of_int \<lfloor>x / 360\<rfloor> \<le> x / 360" "x / 360 < of_int \<lfloor>x / 360\<rfloor> + 1"
    by linarith+
  then show ?thesis
    unfolding py_mod_def by (simp add: field_simps)
qed

lemma py_mod_reduced:
  assumes "0 \<le> r" and "r < 360"
  shows "py_mod (r + 360 * of_int k) 360 = r"
proof -
  have "(r + 360 * real_of_int k) / 360 = of_int k + r / 360"
    by (simp add: field_simps)
  moreover have "0 \<le> r / 360" "r / 360 < 1" using assms by simp_all
  ultimately have "\<lfloor>(r + 360 * real_of_int k) / 360\<rfloor> = k"
    by (simp add: floor_eq_iff)
  then show ?thesis by (simp add: py_mod_def)
qed

lemma py_mod_half_turn: "py_mod (180 + 360 * of_int k) 360 = 180"
  using py_mod_reduced [of 180 k] by simp

subsection \<open>The counter on a motor\<close>

lemma abs_count_motor:
  assumes "cnt_sim_motor c = Some a"
  shows "abs_count env c w =
    (let r = py_mod (fst (get_latest_output env (cells w a))) 360 in if r < 180 then r else r - 360)"
  using assms by (simp add: abs_count_def Let_def split: prod.splits)

lemma abs_count_bounds:
  assumes "cnt_sim_motor c = Some a"
  shows "- 180 \<le> abs_count env c w" and "abs_count env c w < 180"
  using py_mod_360_range [of "fst (get_latest_output env (cells w a))"]
  by (simp_all add: abs_count_motor [OF assms] Let_def)

lemma abs_count_congruent:
  assumes "cnt_sim_motor c = Some a"
  shows "\<exists>k::int. abs_count env c w = fst (get_latest_output env (cells w a)) + 360 * of_int k"
proof (cases "py_mod (fst (get_latest_output env (cells w a))) 360 < 180")
  case True
  then have "abs_count env c w = fst (get_latest_output env (cells w a))
      + 360 * of_int (- \<lfloor>fst (get_latest_output env (cells w a)) / 360\<rfloor>)"
    by (simp add: abs_count_motor [OF assms] Let_def py_mod_def)
  then show ?thesis by blast
next
  case False
  then have "abs_count env c w = fst (get_latest_output env (cells w a))
      + 360 * of_int (- \<lfloor>fst (get_latest_output env (cells w a)) / 360\<rfloor> - 1)"
    by (simp add: abs_count_motor [OF assms] Let_def py_mod_def)
  then show ?thesis by blast
qed

lemma count_motor:
  assumes "cnt_sim_motor c = Some a" and "initial_angle c = Some angle0"
  shows "count env c w = Inr (fst (get_latest_output env (cells w a)) - angle0)"
  using assms by (simp add: count_def split: prod.splits)

subsection \<open>The driver\<close>

lemma on_set_duty_cycle_motor:
  assumes "drv_sim_motor d = Some a"
  shows "on_set_duty_cycle env d [t, u] w =
    Inr (w\<lparr>cells := (cells w)(a := simulate env (cells w a) (t / 1000000 + 5 / 1000) [u])\<rparr>)"
  using assms by (simp add: on_set_duty_cycle_def)

subsection \<open>The loop over the port table\<close>

lemma motor_count_simps [simp]:
  "motor_count [] = 0"
  "motor_count ((pid, t) # rest) = (if t = NONE then 0 else 1) + motor_count rest"
  by (simp_all add: motor_count_def)

lemma init_port_none:
  "init_port env i pid NONE (p, w, g) =
     Inr (p\<lparr>ioport := (ioport p)(pid \<mapsto> \<lparr>port_id = pid, motor_type_id = NONE\<rparr>),
            sim_motor := (sim_motor p)(i \<mapsto> None),
            counter := (counter p)(i \<mapsto> \<lparr>cnt_sim_motor = None, initial_angle = None\<rparr>),
            motor_driver := (motor_driver p)(i \<mapsto> \<lparr>drv_sim_motor = None\<rparr>)\<rparr>, w, g)"
  by (simp add: init_port_def VirtualCounter_init_def VirtualMotorDriver_init_def)

lemma init_port_motor:
  assumes "t \<noteq> NONE" and "clock p (- 1) = Some clk"
  shows "init_port env i pid t (p, w, g) =
     Inr (p\<lparr>ioport := (ioport p)(pid \<mapsto> \<lparr>port_id = pid, motor_type_id = t\<rparr>),
            sim_motor := (sim_motor p)(i \<mapsto> Some (fresh w)),
            counter := (counter p)(i \<mapsto> \<lparr>cnt_sim_motor = Some (fresh w),
              initial_angle = Some (fst (get_latest_output env (drawn_motor env clk g 0)))\<rparr>),
            motor_driver := (motor_driver p)(i \<mapsto> \<lparr>drv_sim_motor = Some (fresh w)\<rparr>)\<rparr>,
          w\<lparr>cells := (cells w)(fresh w := drawn_motor env clk g 0), fresh := Suc (fresh w)\<rparr>,
          \<lambda>n. g (Suc n))"
  using assms
  by (simp add: init_port_def VirtualCounter_init_def VirtualMotorDriver_init_def alloc_def
      randint_def drawn_motor_def drawn_angle_def Let_def split: prod.splits)

lemma drawn_motor_shift: "drawn_motor env clk (\<lambda>n. g (Suc n)) k = drawn_motor env clk g (Suc k)"
  by (simp add: drawn_motor_def drawn_angle_def)

lemma drawn_angle_range: "- 180 \<le> drawn_angle g k \<and> drawn_angle g k \<le> 179"
proof -
  have "g k mod 360 < 360" by simp
  then show ?thesis by (simp add: drawn_angle_def randint_def)
qed

lemma wired_Cons_none:
  "wired env clk g base ((pid, NONE) # rest) (Suc j) p w idx = wired env clk g base rest j p w idx"
  by (simp add: wired_def)

lemma wired_Cons_motor:
  "t \<noteq> NONE \<Longrightarrow> wired env clk g base ((pid, t) # rest) (Suc j) p w idx
     = wired env clk (\<lambda>n. g (Suc n)) (Suc base) rest j p w idx"
  by (simp add: wired_def drawn_motor_shift Let_def)

text \<open>
  The loop never raises once the clock is in place. It consumes one draw and one address
  per motor port, leaves the entries below its start index and the cells below the first
  fresh address alone, and wires every port of the table.
\<close>

lemma init_ports_result:
  assumes "clock p (- 1) = Some clk"
  shows "\<exists>p' w'. init_ports env i ports (p, w, g) = Inr (p', w', \<lambda>n. g (n + motor_count ports))
     \<and> clock p' = clock p \<and> fresh w' = fresh w + motor_count ports
     \<and> (\<forall>a<fresh w. cells w' a = cells w a)
     \<and> (\<forall>k<i. sim_motor p' k = sim_motor p k \<and> counter p' k = counter p k
           \<and> motor_driver p' k = motor_driver p k)
     \<and> (\<forall>j<length ports. wired env clk g (fresh w) ports j p' w' (i + j))"
  using assms
proof (induction ports arbitrary: i p w g)
  case Nil
  then show ?case by simp
next
  case (Cons x rest)
  obtain pid t where x: "x = (pid, t)" by (cases x)
  show ?case
  proof (cases "t = NONE")
    case True
    define p1 where "p1 = p\<lparr>ioport := (ioport p)(pid \<mapsto> \<lparr>port_id = pid, motor_type_id = NONE\<rparr>),
            sim_motor := (sim_motor p)(i \<mapsto> None),
            counter := (counter p)(i \<mapsto> \<lparr>cnt_sim_motor = None, initial_angle = None\<rparr>),
            motor_driver := (motor_driver p)(i \<mapsto> \<lparr>drv_sim_motor = None\<rparr>)\<rparr>"
    have step: "init_port env i pid t (p, w, g) = Inr (p1, w, g)"
      using True by (simp add: init_port_none p1_def)
    have clk1: "clock p1 (- 1) = Some clk" using Cons.prems by (simp add: p1_def)
    from Cons.IH [OF clk1, of "Suc i" w g] obtain p' w' where
      run: "init_ports env (Suc i) rest (p1, w, g) = Inr (p', w', \<lambda>n. g (n + motor_count rest))"
      and ck: "clock p' = clock p1" and fr: "fresh w' = fresh w + motor_count rest"
      and cells: "\<forall>a<fresh w. cells w' a = cells w a"
      and frame: "\<forall>k<Suc i. sim_motor p' k = sim_motor p1 k \<and> counter p' k = counter p1 k
           \<and> motor_driver p' k = motor_driver p1 k"
      and rest: "\<forall>j<length rest. wired env clk g (fresh w) rest j p' w' (Suc i + j)"
      by blast
    have w0: "wired env clk g (fresh w) (x # rest) 0 p' w' i"
      using frame True by (simp add: wired_def x p1_def)
    have all: "\<forall>j<length (x # rest). wired env clk g (fresh w) (x # rest) j p' w' (i + j)"
    proof (intro allI impI)
      fix j assume "j < length (x # rest)"
      then show "wired env clk g (fresh w) (x # rest) j p' w' (i + j)"
        using w0 rest True by (cases j) (simp_all add: x wired_Cons_none)
    qed
    have old: "\<forall>k<i. sim_motor p' k = sim_motor p k \<and> counter p' k = counter p k
           \<and> motor_driver p' k = motor_driver p k"
      using frame by (simp add: p1_def)
    show ?thesis
      using run step ck fr cells old all True by (simp add: x p1_def)
  next
    case False
    define p1 where "p1 = p\<lparr>ioport := (ioport p)(pid \<mapsto> \<lparr>port_id = pid, motor_type_id = t\<rparr>),
            sim_motor := (sim_motor p)(i \<mapsto> Some (fresh w)),
            counter := (counter p)(i \<mapsto> \<lparr>cnt_sim_motor = Some (fresh w),
              initial_angle = Some (fst (get_latest_output env (drawn_motor env clk g 0)))\<rparr>),
            motor_driver := (motor_driver p)(i \<mapsto> \<lparr>drv_sim_motor = Some (fresh w)\<rparr>)\<rparr>"
    define w1 where
      "w1 = w\<lparr>cells := (cells w)(fresh w := drawn_motor env clk g 0), fresh := Suc (fresh w)\<rparr>"
    have step: "init_port env i pid t (p, w, g) = Inr (p1, w1, \<lambda>n. g (Suc n))"
      using init_port_motor [OF False Cons.prems] by (simp add: p1_def w1_def)
    have clk1: "clock p1 (- 1) = Some clk" using Cons.prems by (simp add: p1_def)
    from Cons.IH [OF clk1, of "Suc i" w1 "\<lambda>n. g (Suc n)"] obtain p' w' where
      run: "init_ports env (Suc i) rest (p1, w1, \<lambda>n. g (Suc n))
              = Inr (p', w', \<lambda>n. g (Suc (n + motor_count rest)))"
      and ck: "clock p' = clock p1" and fr: "fresh w' = fresh w1 + motor_count rest"
      and cells: "\<forall>a<fresh w1. cells w' a = cells w1 a"
      and frame: "\<forall>k<Suc i. sim_motor p' k = sim_motor p1 k \<and> counter p' k = counter p1 k
           \<and> motor_driver p' k = motor_driver p1 k"
      and rest: "\<forall>j<length rest. wired env clk (\<lambda>n. g (Suc n)) (fresh w1) rest j p' w' (Suc i + j)"
      by blast
    have f1: "fresh w1 = Suc (fresh w)" by (simp add: w1_def)
    have c0: "cells w' (fresh w) = drawn_motor env clk g 0"
      using cells by (simp add: w1_def)
    have w0: "wired env clk g (fresh w) (x # rest) 0 p' w' i"
      using frame False c0 by (simp add: wired_def x p1_def)
    have all: "\<forall>j<length (x # rest). wired env clk g (fresh w) (x # rest) j p' w' (i + j)"
    proof (intro allI impI)
      fix j assume "j < length (x # rest)"
      then show "wired env clk g (fresh w) (x # rest) j p' w' (i + j)"
        using w0 rest False by (cases j) (simp_all add: x wired_Cons_motor f1)
    qed
    have old: "\<forall>k<i. sim_motor p' k = sim_motor p k \<and> counter p' k = counter p k
           \<and> motor_driver p' k = motor_driver p k"
      using frame by (simp add: p1_def)
    have oldcells: "\<forall>a<fresh w. cells w' a = cells w a"
      using cells by (simp add: w1_def)
    show ?thesis
      using run step ck fr oldcells old all False by (simp add: x p1_def f1)
  qed
qed

lemma Platform_init_result:
  "\<exists>p w'. Platform_init env ports w g = Inr (p, w', \<lambda>n. g (n + motor_count ports))
     \<and> clock p = [- 1 \<mapsto> CountingClock env 0 0]
     \<and> fresh w' = fresh w + motor_count ports
     \<and> (\<forall>a<fresh w. cells w' a = cells w a)
     \<and> (\<forall>j<length ports. wired env (CountingClock env 0 0) g (fresh w) ports j p w' j)"
proof -
  define p0 where "p0 = \<lparr>clock = [- 1 \<mapsto> CountingClock env 0 0], ioport = Map.empty,
                  counter = Map.empty, motor_driver = Map.empty, sim_motor = Map.empty\<rparr>"
  have "clock p0 (- 1) = Some (CountingClock env 0 0)" by (simp add: p0_def)
  from init_ports_result [OF this, of env 0 ports w g]
  show ?thesis by (auto simp: Platform_init_def p0_def)
qed

lemma Platform_init_wired:
  assumes "Platform_init env ports w g = Inr (p, w1, g1)" and "j < length ports"
  shows "wired env (CountingClock env 0 0) g (fresh w) ports j p w1 j"
  using Platform_init_result [of env ports w g] assms by auto

subsection \<open>The reference model on concrete inputs\<close>

lemma degrees_radians: "degrees (radians x) = x"
  by (simp add: degrees_def radians_def)

lemma radians_zero: "radians 0 = 0"
  by (simp add: radians_def)

lemma output_store_at: "get_latest_output reference_env (cells (store_at \<theta>) 0) = (\<theta>, 0)"
  by (simp add: store_at_def alloc_def reference_env_def empty_store_def SimpleMotor_init_def
      SimpleMotor_get_latest_output_def degrees_radians)

lemma counter_at_eq: "counter_at \<theta> = \<lparr>cnt_sim_motor = Some 0, initial_angle = Some \<theta>\<rparr>"
  by (simp add: counter_at_def VirtualCounter_init_def output_store_at)

lemma driver_at_0_motor: "drv_sim_motor driver_at_0 = Some 0"
  by (simp add: driver_at_0_def VirtualMotorDriver_init_def)

lemma reference_deterministic: "physics_deterministic reference_env"
  by (simp add: physics_deterministic_def reference_env_def SimpleMotor_simulate_def Let_def)

text \<open>
  Construction on the source's port table, with a generator whose first raw value is 0:
  the draw is -180, so the motor of port A starts at -180 degrees.
\<close>

lemma boot_reference:
  "\<exists>p g. Platform_init reference_env PORTS empty_store zero_rng = Inr (p, store_at (- 180), g)
     \<and> counter p 0 = Some (counter_at (- 180)) \<and> motor_driver p 0 = Some driver_at_0
     \<and> counter p 1 = Some \<lparr>cnt_sim_motor = None, initial_angle = None\<rparr>
     \<and> motor_driver p 1 = Some \<lparr>drv_sim_motor = None\<rparr>"
  by (simp add: Platform_init_def PORTS_def init_port_none init_port_motor drawn_motor_def
      drawn_angle_def randint_def zero_rng_def store_at_def alloc_def empty_store_def
      reference_env_def counter_at_eq SimpleMotor_init_def SimpleMotor_get_latest_output_def
      degrees_radians driver_at_0_def VirtualMotorDriver_init_def)

lemma booted_eq:
  "\<not> isl (Platform_init reference_env PORTS empty_store zero_rng)
   \<and> fst (snd booted) = store_at (- 180)
   \<and> counter (fst booted) 0 = Some (counter_at (- 180))"
  using boot_reference by (auto simp: booted_def)

section \<open>The claims\<close>

subsection \<open>The wrapped position\<close>

text \<open>
  C1, as amended. For every counter with a motor and every store, the value of
  \<open>abs_count\<close> is at least -180 and strictly below 180, and it differs from the latest
  angle by a whole number of turns. The range is closed at -180 and open at 180, the other
  way round from the range (-180, 180] of the claim as written.
\<close>

theorem abs_count_range:
  assumes "cnt_sim_motor c = Some a"
  shows "- 180 \<le> abs_count env c w \<and> abs_count env c w < 180
    \<and> (\<exists>k::int. abs_count env c w = fst (get_latest_output env (cells w a)) + 360 * of_int k)"
  using abs_count_bounds [OF assms] abs_count_congruent [OF assms] by blast

theorem abs_count_range_witness:
  "cnt_sim_motor (counter_at 540) = Some 0
   \<and> - 180 \<le> abs_count reference_env (counter_at 540) (store_at 540)
   \<and> abs_count reference_env (counter_at 540) (store_at 540) < 180
   \<and> (\<exists>k::int. abs_count reference_env (counter_at 540) (store_at 540)
         = fst (get_latest_output reference_env (cells (store_at 540) 0)) + 360 * of_int k)"
proof -
  have h: "cnt_sim_motor (counter_at 540) = Some 0" by (simp add: counter_at_eq)
  show ?thesis using h abs_count_range [OF h, of reference_env "store_at 540"] by simp
qed

text \<open>
  C1 as written fails right after construction: when the draw for port A is -180, the
  platform built from the source's port table holds a motor at -180 degrees, and the
  counter of port A reads -180, which is not strictly above -180.
\<close>

theorem abs_count_minus_180_reached:
  "\<not> isl (Platform_init reference_env PORTS empty_store zero_rng)
   \<and> fst (snd booted) = store_at (- 180)
   \<and> counter (fst booted) 0 = Some (counter_at (- 180))
   \<and> abs_count reference_env (counter_at (- 180)) (store_at (- 180)) = - 180
   \<and> \<not> (- 180 < abs_count reference_env (counter_at (- 180)) (store_at (- 180))
        \<and> abs_count reference_env (counter_at (- 180)) (store_at (- 180)) \<le> 180)"
proof -
  have "abs_count reference_env (counter_at (- 180)) (store_at (- 180)) = - 180"
    by (simp add: abs_count_def counter_at_eq output_store_at py_mod_def)
  with booted_eq show ?thesis by simp
qed

text \<open>
  C2. For every counter with a motor: whenever \<open>r\<close> is the reduction of the latest angle
  modulo 360 into [0, 360) (the angle is \<open>r\<close> plus a whole number of turns), the code's
  \<open>angle % 360\<close> is \<open>r\<close> and \<open>abs_count\<close> is \<open>r - 360\<close> when \<open>r\<close> is at least 180 and
  \<open>r\<close> otherwise; in particular a reduction of exactly 180 gives -180.
\<close>

theorem abs_count_reduce_then_shift:
  assumes "cnt_sim_motor c = Some a"
    and "fst (get_latest_output env (cells w a)) = r + 360 * of_int k"
    and "0 \<le> r" and "r < 360"
  shows "py_mod (fst (get_latest_output env (cells w a))) 360 = r
    \<and> abs_count env c w = (if 180 \<le> r then r - 360 else r)
    \<and> (r = 180 \<longrightarrow> abs_count env c w = - 180)"
  using py_mod_reduced [OF assms(3,4), of k] assms(2)
  by (auto simp: abs_count_motor [OF assms(1)] Let_def)

theorem abs_count_reduce_then_shift_witness:
  "cnt_sim_motor (counter_at 540) = Some 0
   \<and> fst (get_latest_output reference_env (cells (store_at 540) 0)) = 180 + 360 * of_int 1
   \<and> (0::real) \<le> 180 \<and> (180::real) < 360
   \<and> py_mod (fst (get_latest_output reference_env (cells (store_at 540) 0))) 360 = 180
   \<and> abs_count reference_env (counter_at 540) (store_at 540) = - 180"
proof -
  have h1: "cnt_sim_motor (counter_at 540) = Some 0" by (simp add: counter_at_eq)
  have h2: "fst (get_latest_output reference_env (cells (store_at 540) 0)) = 180 + 360 * of_int 1"
    by (simp add: output_store_at)
  have h3: "(0::real) \<le> 180" and h4: "(180::real) < 360" by simp_all
  show ?thesis
    using h1 h2 abs_count_reduce_then_shift [OF h1 h2 h3 h4] by simp
qed

text \<open>
  C10. For every counter with a motor and every real latest angle, \<open>abs_count\<close> lies in
  [-180, 180): it is never +180, and it is exactly -180 whenever the angle is 180 plus a
  whole number of turns.
\<close>

theorem abs_count_never_plus_180:
  assumes "cnt_sim_motor c = Some a"
  shows "- 180 \<le> abs_count env c w \<and> abs_count env c w < 180 \<and> abs_count env c w \<noteq> 180
    \<and> (\<forall>k::int. fst (get_latest_output env (cells w a)) = 180 + 360 * of_int k
          \<longrightarrow> abs_count env c w = - 180)"
  using abs_count_bounds [OF assms, of env w]
  by (auto simp: abs_count_motor [OF assms] py_mod_half_turn)

theorem abs_count_never_plus_180_witness:
  "cnt_sim_motor (counter_at 180) = Some 0
   \<and> fst (get_latest_output reference_env (cells (store_at 180) 0)) = 180 + 360 * of_int 0
   \<and> abs_count reference_env (counter_at 180) (store_at 180) = - 180
   \<and> abs_count reference_env (counter_at 180) (store_at 180) \<noteq> 180"
proof -
  have h: "cnt_sim_motor (counter_at 180) = Some 0" by (simp add: counter_at_eq)
  have ang: "fst (get_latest_output reference_env (cells (store_at 180) 0)) = 180 + 360 * of_int 0"
    by (simp add: output_store_at)
  from abs_count_never_plus_180 [OF h, of reference_env "store_at 180"] ang
  show ?thesis using h by simp
qed

subsection \<open>Construction\<close>

text \<open>
  C3, as amended. Construction checks no device-type tag and never aborts: for every port
  table it returns a platform, every port whose tag is not \<open>NONE\<close>, whatever the tag,
  gets a simulated motor from the one constructor the module imports, and exactly the
  ports tagged \<open>NONE\<close> are left without a motor.
\<close>

theorem construction_never_aborts:
  "\<exists>p w' g'. Platform_init env ports w g = Inr (p, w', g')
     \<and> (\<forall>j<length ports.
           (snd (ports ! j) = NONE \<longrightarrow> sim_motor p j = Some None)
         \<and> (snd (ports ! j) \<noteq> NONE \<longrightarrow> (\<exists>a. sim_motor p j = Some (Some a))))"
proof -
  from Platform_init_result [of env ports w g] obtain p w' where
    r: "Platform_init env ports w g = Inr (p, w', \<lambda>n. g (n + motor_count ports))"
    and wi: "\<forall>j<length ports. wired env (CountingClock env 0 0) g (fresh w) ports j p w' j"
    by blast
  have "\<forall>j<length ports.
           (snd (ports ! j) = NONE \<longrightarrow> sim_motor p j = Some None)
         \<and> (snd (ports ! j) \<noteq> NONE \<longrightarrow> (\<exists>a. sim_motor p j = Some (Some a)))"
    using wi by (auto simp: wired_def Let_def)
  with r show ?thesis by blast
qed

theorem construction_never_aborts_witness:
  "0 < length unknown_tag_ports \<and> snd (unknown_tag_ports ! 0) \<noteq> NONE
   \<and> (\<exists>p w' g'. Platform_init reference_env unknown_tag_ports empty_store zero_rng = Inr (p, w', g')
         \<and> (\<exists>a. sim_motor p 0 = Some (Some a)))"
proof -
  have h: "0 < length unknown_tag_ports" "snd (unknown_tag_ports ! 0) \<noteq> NONE"
    by (simp_all add: unknown_tag_ports_def)
  from construction_never_aborts [of reference_env unknown_tag_ports empty_store zero_rng]
  show ?thesis using h by blast
qed

text \<open>
  C3 as written fails on a port table whose only port carries a tag that robot.py never
  names: construction does not abort, and the port gets a motor at address 0.
\<close>

theorem construction_accepts_unknown_tag:
  "\<not> isl (Platform_init reference_env unknown_tag_ports empty_store zero_rng)
   \<and> sim_motor (fst (projr (Platform_init reference_env unknown_tag_ports empty_store zero_rng))) 0
       = Some (Some 0)"
  by (simp add: Platform_init_def unknown_tag_ports_def init_port_motor empty_store_def)

text \<open>
  C7. Construction returns a platform whose clock is the fresh \<open>CountingClock\<close>. Every
  port whose tag is not \<open>NONE\<close> gets a new \<open>SimMotor\<close>, started at the time that clock
  shows (its microseconds over a million) with the state \<open>[radians angle, radians 0]\<close>,
  where \<open>angle\<close> is that port's own draw of \<open>random.randint(-180, 179)\<close>, a whole number
  of degrees with -180 \<le> angle < 180, and the initial speed is 0. Every port tagged
  \<open>NONE\<close> has an empty motor slot. How the draws are distributed is the library
  generator's business; the generator is a parameter here.
\<close>

theorem construction_seeds_motors:
  "\<exists>p w' g'. Platform_init env ports w g = Inr (p, w', g')
     \<and> clock p (- 1) = Some (CountingClock env 0 0)
     \<and> radians 0 = 0
     \<and> (\<forall>j<length ports.
          if snd (ports ! j) = NONE then sim_motor p j = Some None
          else sim_motor p j = Some (Some (fresh w + motor_count (take j ports)))
             \<and> cells w' (fresh w + motor_count (take j ports))
                 = SimMotor env (microseconds env (CountingClock env 0 0) / 1000000)
                     [radians (of_int (drawn_angle g (motor_count (take j ports)))), radians 0]
             \<and> - 180 \<le> drawn_angle g (motor_count (take j ports))
             \<and> drawn_angle g (motor_count (take j ports)) < 180)"
proof -
  from Platform_init_result [of env ports w g] obtain p w' where
    r: "Platform_init env ports w g = Inr (p, w', \<lambda>n. g (n + motor_count ports))"
    and ck: "clock p = [- 1 \<mapsto> CountingClock env 0 0]"
    and wi: "\<forall>j<length ports. wired env (CountingClock env 0 0) g (fresh w) ports j p w' j"
    by blast
  have "if snd (ports ! j) = NONE then sim_motor p j = Some None
          else sim_motor p j = Some (Some (fresh w + motor_count (take j ports)))
             \<and> cells w' (fresh w + motor_count (take j ports))
                 = SimMotor env (microseconds env (CountingClock env 0 0) / 1000000)
                     [radians (of_int (drawn_angle g (motor_count (take j ports)))), radians 0]
             \<and> - 180 \<le> drawn_angle g (motor_count (take j ports))
             \<and> drawn_angle g (motor_count (take j ports)) < 180"
    if "j < length ports" for j
  proof -
    from wi that have wj: "wired env (CountingClock env 0 0) g (fresh w) ports j p w' j" by blast
    show ?thesis
    proof (cases "snd (ports ! j) = NONE")
      case True
      with wj show ?thesis by (simp add: wired_def)
    next
      case False
      with wj drawn_angle_range [of g "motor_count (take j ports)"] show ?thesis
        by (simp add: wired_def Let_def drawn_motor_def)
    qed
  qed
  with r ck radians_zero show ?thesis by auto
qed

theorem construction_seeds_motors_witness:
  "0 < length PORTS \<and> snd (PORTS ! 0) \<noteq> NONE \<and> 1 < length PORTS \<and> snd (PORTS ! 1) = NONE
   \<and> (\<exists>p w' g'. Platform_init reference_env PORTS empty_store zero_rng = Inr (p, w', g')
        \<and> sim_motor p 0 = Some (Some 0)
        \<and> cells w' 0 = SimpleMotor_init 0 [radians (- 180), radians 0]
        \<and> sim_motor p 1 = Some None)"
proof -
  have h: "0 < length PORTS" "snd (PORTS ! 0) \<noteq> NONE" "1 < length PORTS" "snd (PORTS ! 1) = NONE"
    by (simp_all add: PORTS_def)
  have d: "drawn_angle zero_rng 0 = - 180"
    by (simp add: drawn_angle_def randint_def zero_rng_def)
  from construction_seeds_motors [of reference_env PORTS empty_store zero_rng]
  obtain p w' g' where r: "Platform_init reference_env PORTS empty_store zero_rng = Inr (p, w', g')"
    and a: "\<forall>j<length PORTS.
          if snd (PORTS ! j) = NONE then sim_motor p j = Some None
          else sim_motor p j = Some (Some (fresh empty_store + motor_count (take j PORTS)))
             \<and> cells w' (fresh empty_store + motor_count (take j PORTS))
                 = SimMotor reference_env
                     (microseconds reference_env (CountingClock reference_env 0 0) / 1000000)
                     [radians (of_int (drawn_angle zero_rng (motor_count (take j PORTS)))), radians 0]
             \<and> - 180 \<le> drawn_angle zero_rng (motor_count (take j PORTS))
             \<and> drawn_angle zero_rng (motor_count (take j PORTS)) < 180"
    by blast
  note a0 = a [THEN spec, of 0, THEN mp, OF h(1)]
  note a1 = a [THEN spec, of 1, THEN mp, OF h(3)]
  from a0 h(2) have "sim_motor p 0 = Some (Some 0)
      \<and> cells w' 0 = SimpleMotor_init 0 [radians (- 180), radians 0]"
    by (simp add: d empty_store_def reference_env_def)
  moreover from a1 h(4) have "sim_motor p 1 = Some None" by simp
  ultimately show ?thesis using h r by blast
qed

subsection \<open>The unwrapped position\<close>

text \<open>
  C4. On a constructed platform, for every port with a motor and every history of
  actuation calls made after construction, \<open>count\<close> returns the latest angle minus the
  angle the motor showed when construction ended, which is the calibration angle the
  counter stored. Nothing is reduced modulo a turn: in the example below the count is 500
  degrees.
\<close>

theorem count_is_angle_minus_calibration:
  assumes "Platform_init env ports w g = Inr (p, w1, g1)"
    and "j < length ports" and "snd (ports ! j) \<noteq> NONE"
  shows "\<exists>c a. counter p j = Some c \<and> sim_motor p j = Some (Some a) \<and> cnt_sim_motor c = Some a
     \<and> initial_angle c = Some (fst (get_latest_output env (cells w1 a)))
     \<and> (\<forall>calls. count env c (run env p calls w1)
           = Inr (fst (get_latest_output env (cells (run env p calls w1) a))
                  - fst (get_latest_output env (cells w1 a))))"
proof -
  from Platform_init_wired [OF assms(1,2)] assms(3) obtain a where
    sm: "sim_motor p j = Some (Some a)"
    and cnt: "counter p j = Some \<lparr>cnt_sim_motor = Some a,
                initial_angle = Some (fst (get_latest_output env (cells w1 a)))\<rparr>"
    by (auto simp: wired_def Let_def)
  show ?thesis
    using sm cnt by (simp add: count_motor)
qed

theorem count_is_angle_minus_calibration_witness:
  "\<exists>p w1 g1. Platform_init reference_env PORTS empty_store zero_rng = Inr (p, w1, g1)
     \<and> 0 < length PORTS \<and> snd (PORTS ! 0) \<noteq> NONE
     \<and> (\<exists>c. counter p 0 = Some c
          \<and> count reference_env c (run reference_env p [SetDutyCycle 0 [995000, 1000]] w1) = Inr 500)"
proof -
  from boot_reference obtain p g where
    r: "Platform_init reference_env PORTS empty_store zero_rng = Inr (p, store_at (- 180), g)"
    and c: "counter p 0 = Some (counter_at (- 180))"
    and d: "motor_driver p 0 = Some driver_at_0"
    by blast
  have h: "0 < length PORTS" "snd (PORTS ! 0) \<noteq> NONE" by (simp_all add: PORTS_def)
  from count_is_angle_minus_calibration [OF r h] c obtain a where
    a: "cnt_sim_motor (counter_at (- 180)) = Some a"
    and k: "\<forall>calls. count reference_env (counter_at (- 180)) (run reference_env p calls (store_at (- 180)))
           = Inr (fst (get_latest_output reference_env
                         (cells (run reference_env p calls (store_at (- 180))) a))
                  - fst (get_latest_output reference_env (cells (store_at (- 180)) a)))"
    by auto
  from a have a0: "a = 0" by (simp add: counter_at_eq)
  have "run reference_env p [SetDutyCycle 0 [995000, 1000]] (store_at (- 180))
      = (store_at (- 180))\<lparr>cells := (cells (store_at (- 180)))(0 :=
           simulate reference_env (cells (store_at (- 180)) 0) 1 [1000])\<rparr>"
    by (simp add: d driver_at_0_def VirtualMotorDriver_init_def on_set_duty_cycle_def)
  moreover have "get_latest_output reference_env
       (simulate reference_env (cells (store_at (- 180)) 0) 1 [1000]) = (320, 1000)"
    by (simp add: store_at_def alloc_def reference_env_def empty_store_def SimpleMotor_init_def
      SimpleMotor_get_latest_output_def SimpleMotor_simulate_def degrees_radians)
  ultimately have "count reference_env (counter_at (- 180))
      (run reference_env p [SetDutyCycle 0 [995000, 1000]] (store_at (- 180))) = Inr 500"
    using k [THEN spec, of "[SetDutyCycle 0 [995000, 1000]]"] by (simp add: a0 output_store_at)
  with r c h show ?thesis by blast
qed

subsection \<open>Ports without a motor\<close>

text \<open>
  C5. On a constructed platform, for every port tagged \<open>NONE\<close>: the driver and the
  counter of the port hold no motor; \<open>on_set_duty_cycle\<close> returns normally with the
  store unchanged for every argument tuple; \<open>on_coast\<close> does so for every call that
  passes its time argument, whatever its value and whatever follows it; and \<open>abs_count\<close>,
  \<open>count\<close> and \<open>rate\<close> return 0 on every store, so after any call history.
\<close>

theorem no_motor_port_is_inert:
  assumes "Platform_init env ports w g = Inr (p, w1, g1)"
    and "j < length ports" and "snd (ports ! j) = NONE"
  shows "\<exists>d c. motor_driver p j = Some d \<and> counter p j = Some c
     \<and> drv_sim_motor d = None \<and> cnt_sim_motor c = None
     \<and> (\<forall>args w2. on_set_duty_cycle env d args w2 = Inr w2)
     \<and> (\<forall>t rest w2. on_coast env d (t # rest) w2 = Inr w2)
     \<and> (\<forall>w2. abs_count env c w2 = 0 \<and> count env c w2 = Inr 0 \<and> rate env c w2 = 0)"
proof -
  from Platform_init_wired [OF assms(1,2)] assms(3)
  have "motor_driver p j = Some \<lparr>drv_sim_motor = None\<rparr>"
    and "counter p j = Some \<lparr>cnt_sim_motor = None, initial_angle = None\<rparr>"
    by (simp_all add: wired_def)
  then show ?thesis
    by (simp add: on_set_duty_cycle_def on_coast_def abs_count_def count_def rate_def)
qed

theorem no_motor_port_is_inert_witness:
  "\<exists>p w1 g1. Platform_init reference_env PORTS empty_store zero_rng = Inr (p, w1, g1)
     \<and> 1 < length PORTS \<and> snd (PORTS ! 1) = NONE
     \<and> (\<exists>d c. motor_driver p 1 = Some d \<and> counter p 1 = Some c
          \<and> on_coast reference_env d [1000000] w1 = Inr w1
          \<and> rate reference_env c w1 = 0)"
proof -
  from boot_reference obtain p g where
    r: "Platform_init reference_env PORTS empty_store zero_rng = Inr (p, store_at (- 180), g)"
    by blast
  have h: "1 < length PORTS" "snd (PORTS ! 1) = NONE" by (simp_all add: PORTS_def)
  from no_motor_port_is_inert [OF r h] r h show ?thesis by blast
qed

subsection \<open>Actuation\<close>

text \<open>
  C6. For every driver with a motor, \<open>on_set_duty_cycle\<close> called with a time \<open>t\<close> in
  microseconds and a duty returns normally; the cell of its motor becomes the physics
  model's \<open>simulate\<close> of the old cell up to \<open>(t + 5000) / 1000000\<close> seconds, that is
  \<open>t\<close> microseconds plus 5 milliseconds, with the one-element input \<open>[duty]\<close>; every other
  cell of the store and the next fresh address stay as they were.
\<close>

theorem set_duty_cycle_advances_physics:
  assumes "drv_sim_motor d = Some a"
  shows "\<exists>w'. on_set_duty_cycle env d [t, duty] w = Inr w'
     \<and> cells w' a = simulate env (cells w a) ((t + 5000) / 1000000) [duty]
     \<and> (\<forall>b. b \<noteq> a \<longrightarrow> cells w' b = cells w b)
     \<and> fresh w' = fresh w"
proof -
  have e: "t / 1000000 + 5 / 1000 = (t + 5000) / 1000000" by (simp add: field_simps)
  have "on_set_duty_cycle env d [t, duty] w =
    Inr (w\<lparr>cells := (cells w)(a := simulate env (cells w a) ((t + 5000) / 1000000) [duty])\<rparr>)"
    using on_set_duty_cycle_motor [OF assms, of env t duty w] by (simp only: e)
  then show ?thesis by simp
qed

theorem set_duty_cycle_advances_physics_witness:
  "drv_sim_motor driver_at_0 = Some 0
   \<and> (\<exists>w'. on_set_duty_cycle reference_env driver_at_0 [0, 100] (store_at 30) = Inr w'
        \<and> cells w' 0 = simulate reference_env (cells (store_at 30) 0) (5 / 1000) [100]
        \<and> cells w' 1 = cells (store_at 30) 1)"
proof -
  note h = driver_at_0_motor
  from set_duty_cycle_advances_physics [OF h, of reference_env 0 100 "store_at 30"]
  show ?thesis using h by auto
qed

text \<open>
  C8. For every driver, with or without a motor, every time argument \<open>t\<close> and every
  store, \<open>on_coast\<close> called with \<open>t\<close> gives the result of \<open>on_set_duty_cycle\<close> called
  with \<open>t\<close> and duty 0: the same store, or the same error.
\<close>

theorem coast_is_zero_duty:
  "on_coast env d (t # rest) w = on_set_duty_cycle env d [t, 0] w"
  by (simp add: on_coast_def)

theorem coast_is_zero_duty_witness:
  "on_coast reference_env driver_at_0 [0] (store_at 30)
     = on_set_duty_cycle reference_env driver_at_0 [0, 0] (store_at 30)
   \<and> on_coast reference_env driver_at_0 [0] (store_at 30)
     = Inr ((store_at 30)\<lparr>cells := (cells (store_at 30))(0 :=
          simulate reference_env (cells (store_at 30) 0) (5 / 1000) [0])\<rparr>)"
  using coast_is_zero_duty [of reference_env driver_at_0 0 "[]" "store_at 30"]
    on_set_duty_cycle_motor [OF driver_at_0_motor, of reference_env 0 0 "store_at 30"]
  by simp

text \<open>
  C9. Let the physics model be deterministic in the sense of the spec: simulating again
  to the end time just reached, under the same input, changes nothing. Then for every
  driver with a motor, \<open>on_set_duty_cycle\<close> called twice in a row with the same time and
  duty leaves, after the second call, the very store that the first call left; so
  \<open>abs_count\<close>, \<open>count\<close> and \<open>rate\<close> of every counter read the same after each call.
\<close>

theorem set_duty_cycle_repeat:
  assumes "physics_deterministic env" and "drv_sim_motor d = Some a"
  shows "\<exists>w1 w2. on_set_duty_cycle env d [t, duty] w = Inr w1
     \<and> on_set_duty_cycle env d [t, duty] w1 = Inr w2
     \<and> w2 = w1
     \<and> (\<forall>c. abs_count env c w2 = abs_count env c w1 \<and> count env c w2 = count env c w1
            \<and> rate env c w2 = rate env c w1)"
proof -
  from assms(1) have "simulate env (simulate env (cells w a) (t / 1000000 + 5 / 1000) [duty])
      (t / 1000000 + 5 / 1000) [duty] = simulate env (cells w a) (t / 1000000 + 5 / 1000) [duty]"
    unfolding physics_deterministic_def by blast
  then show ?thesis
    using assms(2) by (simp add: on_set_duty_cycle_def)
qed

theorem set_duty_cycle_repeat_witness:
  "physics_deterministic reference_env \<and> drv_sim_motor driver_at_0 = Some 0
   \<and> (\<exists>w1. on_set_duty_cycle reference_env driver_at_0 [0, 100] (store_at 30) = Inr w1
        \<and> on_set_duty_cycle reference_env driver_at_0 [0, 100] w1 = Inr w1
        \<and> get_latest_output reference_env (cells w1 0) = (30 + 1 / 800, 1 / 2))"
proof -
  note h = driver_at_0_motor
  from set_duty_cycle_repeat [OF reference_deterministic h, of 0 100 "store_at 30"]
  obtain w1 where
    a: "on_set_duty_cycle reference_env driver_at_0 [0, 100] (store_at 30) = Inr w1"
    and b: "on_set_duty_cycle reference_env driver_at_0 [0, 100] w1 = Inr w1"
    by blast
  from a have "get_latest_output reference_env (cells w1 0) = (30 + 1 / 800, 1 / 2)"
    by (auto simp: on_set_duty_cycle_def h store_at_def alloc_def reference_env_def empty_store_def
      SimpleMotor_init_def SimpleMotor_get_latest_output_def SimpleMotor_simulate_def
      degrees_radians power2_eq_square)
  with a b h reference_deterministic show ?thesis by blast
qed

end
